theory Spec2Isabelle
  imports Complex_Main "HOL-Library.Sublist"
begin

section \<open>JavaScript values\<close>

text \<open>
  A JavaScript number is a double: not-a-number, an infinity, or a finite value, here a
  real. The two zeros are one value \<open>Num 0\<close>, which is how \<open>===\<close>, \<open>Set\<close> and
  \<open>Array.prototype.includes\<close> compare them, so HOL equality on \<open>jsnum\<close> is the
  SameValueZero comparison of \<open>Set\<close> and \<open>includes\<close>, and away from \<open>NaN\<close> it is \<open>===\<close>.
\<close>

datatype jsnum = NaN | PosInfinity | NegInfinity | Num real

text \<open>The relational operators \<open><\<close> and \<open><=\<close>: false as soon as an operand is \<open>NaN\<close>.\<close>

fun js_lt :: "jsnum \<Rightarrow> jsnum \<Rightarrow> bool" where
  "js_lt NaN _ = False"
| "js_lt _ NaN = False"
| "js_lt (Num a) (Num b) = (a < b)"
| "js_lt NegInfinity NegInfinity = False"
| "js_lt NegInfinity _ = True"
| "js_lt _ NegInfinity = False"
| "js_lt PosInfinity _ = False"
| "js_lt _ PosInfinity = True"

definition js_le :: "jsnum \<Rightarrow> jsnum \<Rightarrow> bool" where
  "js_le a b = (a \<noteq> NaN \<and> b \<noteq> NaN \<and> \<not> js_lt b a)"

text \<open>
  A string is a list of characters, and a character is a code unit below 256: its
  number is its Unicode code point (U+0000 to U+00FF). In that range \<open>toLowerCase\<close>
  changes the letters \<open>A\<close> to \<open>Z\<close> and the letters U+00C0 to U+00DE other than the
  multiplication sign U+00D7, each to the character 32 places further on; and \<open>trim\<close>
  strips tab, line feed, vertical tab, form feed, carriage return, space and the
  no-break space U+00A0.
\<close>

definition upper_letters :: string where
  "upper_letters =
     ''ABCDEFGHIJKLMNOPQRSTUVWXYZ'' @
     [CHR 0xC0, CHR 0xC1, CHR 0xC2, CHR 0xC3, CHR 0xC4, CHR 0xC5, CHR 0xC6, CHR 0xC7,
      CHR 0xC8, CHR 0xC9, CHR 0xCA, CHR 0xCB, CHR 0xCC, CHR 0xCD, CHR 0xCE, CHR 0xCF,
      CHR 0xD0, CHR 0xD1, CHR 0xD2, CHR 0xD3, CHR 0xD4, CHR 0xD5, CHR 0xD6,
      CHR 0xD8, CHR 0xD9, CHR 0xDA, CHR 0xDB, CHR 0xDC, CHR 0xDD, CHR 0xDE]"

definition lower_letters :: string where
  "lower_letters =
     ''abcdefghijklmnopqrstuvwxyz'' @
     [CHR 0xE0, CHR 0xE1, CHR 0xE2, CHR 0xE3, CHR 0xE4, CHR 0xE5, CHR 0xE6, CHR 0xE7,
      CHR 0xE8, CHR 0xE9, CHR 0xEA, CHR 0xEB, CHR 0xEC, CHR 0xED, CHR 0xEE, CHR 0xEF,
      CHR 0xF0, CHR 0xF1, CHR 0xF2, CHR 0xF3, CHR 0xF4, CHR 0xF5, CHR 0xF6,
      CHR 0xF8, CHR 0xF9, CHR 0xFA, CHR 0xFB, CHR 0xFC, CHR 0xFD, CHR 0xFE]"

definition lower_char :: "char \<Rightarrow> char" where
  "lower_char c = (case map_of (zip upper_letters lower_letters) c of Some l \<Rightarrow> l | None \<Rightarrow> c)"

definition toLowerCase :: "string \<Rightarrow> string" where
  "toLowerCase s = map lower_char s"

definition is_space :: "char \<Rightarrow> bool" where
  "is_space c = (c \<in> set [CHR 0x09, CHR 0x0A, CHR 0x0B, CHR 0x0C, CHR 0x0D, CHR 0x20, CHR 0xA0])"

definition trim :: "string \<Rightarrow> string" where
  "trim s = rev (dropWhile is_space (rev (dropWhile is_space s)))"

text \<open>\<open>s.startsWith(p)\<close> is \<^const>\<open>prefix\<close>. \<open>s.split(c)\<close> for a one-character separator:\<close>

fun split_on :: "char \<Rightarrow> string \<Rightarrow> string list" where
  "split_on c [] = [[]]"
| "split_on c (x # xs) =
     (if x = c then [] # split_on c xs
      else (x # hd (split_on c xs)) # tl (split_on c xs))"

text \<open>\<open>s.includes(p)\<close>: \<open>p\<close> occurs in \<open>s\<close> as a contiguous substring.\<close>

fun includes_str :: "string \<Rightarrow> string \<Rightarrow> bool" where
  "includes_str [] p = (p = [])"
| "includes_str (x # xs) p = (prefix p (x # xs) \<or> includes_str xs p)"

section \<open>Regular expressions without look-around\<close>

text \<open>
  The regular expressions of \<open>net.isIP\<close> use character classes, concatenation,
  alternation and bounded repetition, and one unbounded repetition of a character class.
  \<open>rmatch r s\<close> lists what is left of \<open>s\<close> after each way of matching \<open>r\<close> at its start,
  so a backtracking search for a match of \<open>^r$\<close> succeeds exactly when the empty rest is
  in the list.
\<close>

datatype rx = Eps | Cls string | Many string | Seq rx rx | Alt rx rx

fun rmatch :: "rx \<Rightarrow> string \<Rightarrow> string list" where
  "rmatch Eps s = [s]"
| "rmatch (Cls cs) s = (case s of [] \<Rightarrow> [] | c # rest \<Rightarrow> if c \<in> set cs then [rest] else [])"
| "rmatch (Many cs) s = map (\<lambda>n. drop n s) [0 ..< Suc (length (takeWhile (\<lambda>c. c \<in> set cs) s))]"
| "rmatch (Seq a b) s = concat (map (rmatch b) (rmatch a s))"
| "rmatch (Alt a b) s = rmatch a s @ rmatch b s"

definition regex_test :: "rx \<Rightarrow> string \<Rightarrow> bool" where
  "regex_test r s = ([] \<in> set (rmatch r s))"

definition Lit :: "char \<Rightarrow> rx" where
  "Lit c = Cls [c]"

fun seqs :: "rx list \<Rightarrow> rx" where
  "seqs [] = Eps"
| "seqs [r] = r"
| "seqs (r # rs) = Seq r (seqs rs)"

fun alts :: "rx list \<Rightarrow> rx" where
  "alts [] = Cls []"
| "alts [r] = r"
| "alts (r # rs) = Alt r (alts rs)"

text \<open>\<open>r{n}\<close>, \<open>r{0,n}\<close> and \<open>r{lo,hi}\<close>.\<close>

fun times :: "nat \<Rightarrow> rx \<Rightarrow> rx" where
  "times 0 r = Eps"
| "times (Suc n) r = Seq r (times n r)"

fun at_most :: "nat \<Rightarrow> rx \<Rightarrow> rx" where
  "at_most 0 r = Eps"
| "at_most (Suc n) r = Alt Eps (Seq r (at_most n r))"

definition between :: "nat \<Rightarrow> nat \<Rightarrow> rx \<Rightarrow> rx" where
  "between lo hi r = Seq (times lo r) (at_most (hi - lo) r)"

section \<open>\<open>net.isIP\<close>\<close>

text \<open>
  \<open>net.isIP\<close> belongs to Node.js, not to this repository. It is modelled by the regular
  expressions of Node's \<open>lib/internal/net.js\<close>:
  \<^verbatim>\<open>
  const v4Seg = '(?:25[0-5]|2[0-4]\\d|1\\d\\d|[1-9]\\d|\\d)';
  const v4Str = `(?:${v4Seg}\\.){3}${v4Seg}`;
  const IPv4Reg = new RegExp(`^${v4Str}$`);
  const v6Seg = '(?:[0-9a-fA-F]{1,4})';
  const IPv6Reg = new RegExp('^(?:' +
    `(?:${v6Seg}:){7}(?:${v6Seg}|:)|` +
    `(?:${v6Seg}:){6}(?:${v4Str}|:${v6Seg}|:)|` +
    `(?:${v6Seg}:){5}(?::${v4Str}|(?::${v6Seg}){1,2}|:)|` +
    `(?:${v6Seg}:){4}(?:(?::${v6Seg}){0,1}:${v4Str}|(?::${v6Seg}){1,3}|:)|` +
    `(?:${v6Seg}:){3}(?:(?::${v6Seg}){0,2}:${v4Str}|(?::${v6Seg}){1,4}|:)|` +
    `(?:${v6Seg}:){2}(?:(?::${v6Seg}){0,3}:${v4Str}|(?::${v6Seg}){1,5}|:)|` +
    `(?:${v6Seg}:){1}(?:(?::${v6Seg}){0,4}:${v4Str}|(?::${v6Seg}){1,6}|:)|` +
    `(?::(?:(?::${v6Seg}){0,5}:${v4Str}|(?::${v6Seg}){1,7}|:))` +
  ')(?:%[0-9a-zA-Z-.:]{1,})?$');
  function isIP(s) { if (isIPv4(s)) return 4; if (isIPv6(s)) return 6; return 0; }
  \<close>
\<close>

definition digits :: string where
  "digits = ''0123456789''"

definition hex_digits :: string where
  "hex_digits = ''0123456789abcdefABCDEF''"

definition zone_chars :: string where
  "zone_chars = ''0123456789abcdefghijklmnopqrstuvwxyzABCDEFGHIJKLMNOPQRSTUVWXYZ-.:''"

definition v4Seg :: rx where
  "v4Seg = alts
     [seqs [Lit CHR ''2'', Lit CHR ''5'', Cls ''012345''],
      seqs [Lit CHR ''2'', Cls ''01234'', Cls digits],
      seqs [Lit CHR ''1'', Cls digits, Cls digits],
      seqs [Cls ''123456789'', Cls digits],
      Cls digits]"

definition v4Str :: rx where
  "v4Str = Seq (times 3 (Seq v4Seg (Lit CHR ''.''))) v4Seg"

definition IPv4Reg :: rx where
  "IPv4Reg = v4Str"

definition v6Seg :: rx where
  "v6Seg = between 1 4 (Cls hex_digits)"

definition colon :: rx where
  "colon = Lit CHR '':''"

definition v6_head :: "nat \<Rightarrow> rx" where
  "v6_head n = times n (Seq v6Seg colon)"

definition v6_tail :: "nat \<Rightarrow> nat \<Rightarrow> rx" where
  "v6_tail lo hi = between lo hi (Seq colon v6Seg)"

definition IPv6Reg :: rx where
  "IPv6Reg = Seq
     (alts
       [Seq (v6_head 7) (alts [v6Seg, colon]),
        Seq (v6_head 6) (alts [v4Str, Seq colon v6Seg, colon]),
        Seq (v6_head 5) (alts [Seq colon v4Str, v6_tail 1 2, colon]),
        Seq (v6_head 4) (alts [seqs [v6_tail 0 1, colon, v4Str], v6_tail 1 3, colon]),
        Seq (v6_head 3) (alts [seqs [v6_tail 0 2, colon, v4Str], v6_tail 1 4, colon]),
        Seq (v6_head 2) (alts [seqs [v6_tail 0 3, colon, v4Str], v6_tail 1 5, colon]),
        Seq (v6_head 1) (alts [seqs [v6_tail 0 4, colon, v4Str], v6_tail 1 6, colon]),
        Seq colon (alts [seqs [v6_tail 0 5, colon, v4Str], v6_tail 1 7, colon])])
     (at_most 1 (seqs [Lit CHR ''%'', Cls zone_chars, Many zone_chars]))"

definition isIPv4 :: "string \<Rightarrow> bool" where
  "isIPv4 s = regex_test IPv4Reg s"

definition isIPv6 :: "string \<Rightarrow> bool" where
  "isIPv6 s = regex_test IPv6Reg s"

definition isIP :: "string \<Rightarrow> nat" where
  "isIP s = (if isIPv4 s then 4 else if isIPv6 s then 6 else 0)"

section \<open>Address classification (\<open>isPrivateIpv4\<close>, \<open>isPrivateIpv6\<close>, \<open>isPrivateIp\<close>)\<close>

text \<open>
  \<open>Number(s)\<close> for a string \<open>s\<close> of decimal digits is its decimal value. On any other
  string this model answers \<open>NaN\<close>, which JavaScript does not always do (\<open>Number('')\<close> is
  0, \<open>Number('0x10')\<close> is 16). \<open>isPrivateIpv4\<close> is internal to the module and its one
  caller, \<open>isPrivateIp\<close>, passes it only strings that \<open>net.isIP\<close> classified as 4, and
  every part of such a string is one to three decimal digits (lemma \<open>isIPv4_parts\<close>
  below), so the model is exact wherever the function is called.
\<close>

definition digit_val :: "char \<Rightarrow> nat" where
  "digit_val c = (case map_of (zip digits [0, 1, 2, 3, 4, 5, 6, 7, 8, 9]) c of Some v \<Rightarrow> v | None \<Rightarrow> 0)"

definition dec_value :: "string \<Rightarrow> nat" where
  "dec_value s = foldl (\<lambda>acc c. 10 * acc + digit_val c) 0 s"

definition Number_digits :: "string \<Rightarrow> jsnum" where
  "Number_digits s =
     (if s \<noteq> [] \<and> list_all (\<lambda>c. c \<in> set digits) s then Num (real (dec_value s)) else NaN)"

definition bad_octet :: "jsnum \<Rightarrow> bool" where
  "bad_octet o' = (o' = NaN \<or> js_lt o' (Num 0) \<or> js_lt (Num 255) o')"

definition isPrivateIpv4 :: "string \<Rightarrow> bool" where
  "isPrivateIpv4 address =
     (let octets = map Number_digits (split_on CHR ''.'' address) in
      if length octets \<noteq> 4 \<or> list_ex bad_octet octets then True
      else
        let a = octets ! 0; b = octets ! 1 in
        if a = Num 10 then True
        else if a = Num 127 then True
        else if a = Num 0 then True
        else if a = Num 169 \<and> b = Num 254 then True
        else if a = Num 172 \<and> js_le (Num 16) b \<and> js_le b (Num 31) then True
        else if a = Num 192 \<and> b = Num 168 then True
        else False)"

definition isPrivateIpv6 :: "string \<Rightarrow> bool" where
  "isPrivateIpv6 address =
     (let normalized = toLowerCase address in
      if normalized = ''::1'' then True
      else if prefix ''fe80:'' normalized then True
      else if prefix ''fc'' normalized \<or> prefix ''fd'' normalized then True
      else False)"

text \<open>The argument of \<open>isPrivateIp\<close> is a string or \<open>undefined\<close>.\<close>

datatype address_arg = Undefined | Str string

fun isPrivateIp :: "address_arg \<Rightarrow> bool" where
  "isPrivateIp Undefined = True"
| "isPrivateIp (Str address) =
     (if address = [] then True
      else if isIP address = 4 then isPrivateIpv4 address
      else if isIP address = 6 then isPrivateIpv6 address
      else True)"

section \<open>Domain names (\<open>isValidDomain\<close>)\<close>

text \<open>
  \<^verbatim>\<open>/^(?!-)[A-Za-z0-9-]{1,63}(?<!-)(\.(?!-)[A-Za-z0-9-]{1,63}(?<!-))+$/\<close>
  The class has no dot, so the labels are the parts between the dots: at least two, each
  of 1 to 63 characters of the class, the first and the last of them not a hyphen.
\<close>

definition label_chars :: string where
  "label_chars = ''ABCDEFGHIJKLMNOPQRSTUVWXYZabcdefghijklmnopqrstuvwxyz0123456789-''"

definition valid_label :: "string \<Rightarrow> bool" where
  "valid_label l =
     (1 \<le> length l \<and> length l \<le> 63 \<and> list_all (\<lambda>c. c \<in> set label_chars) l
      \<and> hd l \<noteq> CHR ''-'' \<and> last l \<noteq> CHR ''-'')"

definition isValidDomain :: "string \<Rightarrow> bool" where
  "isValidDomain target =
     (let labels = split_on CHR ''.'' target in 2 \<le> length labels \<and> list_all valid_label labels)"

section \<open>Port validation (\<open>dedupePorts\<close>, \<open>validatePorts\<close>)\<close>

definition ALLOWED_PORTS :: "jsnum list" where
  "ALLOWED_PORTS =
     [Num 21, Num 22, Num 25, Num 53, Num 80, Num 110, Num 143, Num 443, Num 465, Num 587,
      Num 993, Num 995, Num 8080]"

definition MAX_PORTS :: nat where
  "MAX_PORTS = 20"

definition MIN_TIMEOUT_MS :: int where
  "MIN_TIMEOUT_MS = 1000"

definition RATE_LIMIT_WINDOW_MS :: int where
  "RATE_LIMIT_WINDOW_MS = 10000"

text \<open>A thrown \<open>Error\<close> is its message.\<close>

datatype error = Error string

fun message :: "error \<Rightarrow> string" where
  "message (Error m) = m"

text \<open>
  \<open>new Set(ports)\<close> adds the elements in order and keeps an element that is already
  there where it is; \<open>Array.from\<close> lists the set in insertion order.
\<close>

definition Set_add :: "'a list \<Rightarrow> 'a \<Rightarrow> 'a list" where
  "Set_add s x = (if x \<in> set s then s else s @ [x])"

definition dedupePorts :: "'a list \<Rightarrow> 'a list" where
  "dedupePorts ports = foldl Set_add [] ports"

text \<open>
  \<open>validatePorts Number ports\<close>: \<open>ports\<close> is \<open>None\<close> when the argument is not an array,
  and the list of its elements otherwise. The elements are any JavaScript values; the
  coercion \<open>Number\<close> of a value to a number is a parameter.
\<close>

definition validatePorts :: "('a \<Rightarrow> jsnum) \<Rightarrow> 'a list option \<Rightarrow> error + jsnum list" where
  "validatePorts Number ports =
     (case ports of
        None \<Rightarrow> Inl (Error ''Ports must be an array'')
      | Some ps \<Rightarrow>
          let uniquePorts = dedupePorts (map Number ps) in
          if length uniquePorts = 0 then Inl (Error ''At least one port is required'')
          else if length uniquePorts > MAX_PORTS then Inl (Error ''Cannot scan more than 20 ports'')
          else
            let invalid = filter (\<lambda>p. \<not> (p \<in> set ALLOWED_PORTS)) uniquePorts in
            if length invalid > 0 then Inl (Error ''Ports must be in the allowed list'')
            else Inr uniquePorts)"

section \<open>Target resolution (\<open>resolveTarget\<close>)\<close>

record ResolvedTarget =
  hostname :: string
  address :: string

text \<open>
  \<open>target\<close> is \<open>None\<close> when the argument is not a string. \<open>dns.lookup(name, {all: true})\<close>
  is the parameter \<open>lookup\<close>: it fails with an error or gives the addresses of the
  entries, in the resolver's order.
\<close>

definition resolveTarget :: "(string \<Rightarrow> error + string list) \<Rightarrow> string option \<Rightarrow> error + ResolvedTarget" where
  "resolveTarget lookup target =
     (case target of
        None \<Rightarrow> Inl (Error ''Target is required'')
      | Some t \<Rightarrow>
          if t = [] then Inl (Error ''Target is required'')
          else
            let trimmed = trim t in
            if toLowerCase trimmed = ''localhost'' then Inl (Error ''Localhost is not allowed'')
            else if isIP trimmed \<noteq> 0 then
              (if isPrivateIp (Str trimmed) then Inl (Error ''Private IPs are not allowed'')
               else Inr \<lparr>hostname = trimmed, address = trimmed\<rparr>)
            else if \<not> isValidDomain trimmed then Inl (Error ''Invalid domain name'')
            else
              (case lookup trimmed of
                 Inl e \<Rightarrow> Inl e
               | Inr addresses \<Rightarrow>
                   (case find (\<lambda>entry. \<not> isPrivateIp (Str entry)) addresses of
                      None \<Rightarrow> Inl (Error ''Target resolves to a private IP'')
                    | Some publicAddress \<Rightarrow> Inr \<lparr>hostname = trimmed, address = publicAddress\<rparr>)))"

section \<open>Rate limiting (\<open>enforceRateLimit\<close>)\<close>

text \<open>
  \<open>rateLimitMap\<close> is a map from client identities to times; \<open>now\<close> is the value of
  \<open>Date.now()\<close>. The function returns its result and the map it leaves.
\<close>

type_synonym rate_state = "string \<rightharpoonup> int"

definition no_records :: rate_state where
  "no_records = Map.empty"

definition last_admitted :: "rate_state \<Rightarrow> string \<Rightarrow> int" where
  "last_admitted rateLimitMap clientId =
     (case rateLimitMap clientId of None \<Rightarrow> 0 | Some t \<Rightarrow> if t = 0 then 0 else t)"

definition enforceRateLimit :: "rate_state \<Rightarrow> int \<Rightarrow> string \<Rightarrow> bool \<times> rate_state" where
  "enforceRateLimit rateLimitMap now clientId =
     (let last = last_admitted rateLimitMap clientId in
      if now - last < RATE_LIMIT_WINDOW_MS then (False, rateLimitMap)
      else (True, rateLimitMap(clientId \<mapsto> now)))"

section \<open>The probe (\<open>performPortCheck\<close>)\<close>

datatype port_status = Open | Closed | Filtered

record PortResult =
  port :: jsnum
  status :: port_status
  latency_ms :: "int option"

text \<open>
  What the socket emits: \<open>connect\<close> (with the value \<open>Date.now()\<close> has when the listener
  runs), \<open>timeout\<close>, or \<open>error\<close> with the \<open>code\<close> of the error object (\<open>None\<close> when the
  error is missing or has no code).
\<close>

datatype sock_event = Connect int | Timeout | SockError "string option"

datatype event_name = OnConnect | OnTimeout | OnError

fun event_name_of :: "sock_event \<Rightarrow> event_name" where
  "event_name_of (Connect _) = OnConnect"
| "event_name_of Timeout = OnTimeout"
| "event_name_of (SockError _) = OnError"

text \<open>
  A promise is pending, resolved with a value, or rejected. The one rejection of this
  promise is the \<open>RangeError\<close> of Node's \<open>socket.connect\<close>, below.
\<close>

datatype promise_state = Pending | Resolved PortResult | Rejected

text \<open>
  The state of one call: the timeout given to \<open>socket.setTimeout\<close>, the host and port
  given to \<open>socket.connect\<close>, the listeners registered with \<open>socket.once\<close> that have not
  run yet, the variable \<open>resolved\<close>, the number of calls of \<open>socket.destroy\<close>, and the
  promise.
\<close>

record probe =
  socket_timeout :: int
  connect_to :: "string \<times> jsnum"
  listeners :: "event_name list"
  resolved :: bool
  destroy_calls :: nat
  promise :: promise_state

text \<open>\<open>resolve\<close> settles a pending promise and does nothing to a settled one.\<close>

definition resolve :: "PortResult \<Rightarrow> probe \<Rightarrow> probe" where
  "resolve r st = (case promise st of Pending \<Rightarrow> st\<lparr>promise := Resolved r\<rparr> | _ \<Rightarrow> st)"

definition closeSocket :: "probe \<Rightarrow> probe" where
  "closeSocket st =
     (if \<not> resolved st then st\<lparr>destroy_calls := Suc (destroy_calls st), resolved := True\<rparr> else st)"

fun listener :: "jsnum \<Rightarrow> int \<Rightarrow> sock_event \<Rightarrow> probe \<Rightarrow> probe" where
  "listener p start (Connect now) st =
     closeSocket (resolve \<lparr>port = p, status = Open, latency_ms = Some (now - start)\<rparr> st)"
| "listener p start Timeout st =
     closeSocket (resolve \<lparr>port = p, status = Filtered, latency_ms = None\<rparr> st)"
| "listener p start (SockError code) st =
     closeSocket
       (if code = Some ''ECONNREFUSED''
        then resolve \<lparr>port = p, status = Closed, latency_ms = None\<rparr> st
        else resolve \<lparr>port = p, status = Filtered, latency_ms = None\<rparr> st)"

text \<open>A listener registered with \<open>once\<close> is removed before it runs.\<close>

definition emit :: "jsnum \<Rightarrow> int \<Rightarrow> probe \<Rightarrow> sock_event \<Rightarrow> probe" where
  "emit p start st ev =
     (if event_name_of ev \<in> set (listeners st)
      then listener p start ev (st\<lparr>listeners := removeAll (event_name_of ev) (listeners st)\<rparr>)
      else st)"

text \<open>
  Node's \<open>socket.connect({host, port})\<close> checks the port before it does anything else
  (\<open>lookupAndConnect\<close> in \<open>lib/net.js\<close> calls \<open>validatePort\<close>): a number is accepted when
  \<open>+port === (+port >>> 0) && port <= 0xFFFF\<close>, that is, when it is an integer from 0 to
  65535; for any other number the call throws a \<open>RangeError\<close> with the code
  \<open>ERR_SOCKET_BAD_PORT\<close>. In \<open>performPortCheck\<close> the call is the last statement of the
  function given to \<open>new Promise\<close>, so the throw rejects the promise.
\<close>

definition isLegalPort :: "jsnum \<Rightarrow> bool" where
  "isLegalPort p =
     (case p of Num x \<Rightarrow> real_of_int \<lfloor>x\<rfloor> = x \<and> 0 \<le> x \<and> x \<le> 65535 | _ \<Rightarrow> False)"

text \<open>
  \<open>socket.setTimeout(t)\<close> with a positive \<open>t\<close> starts the idle timer of the socket: when
  \<open>t\<close> milliseconds pass without activity, the socket emits \<open>timeout\<close>. So a socket on
  which nothing else happens emits \<open>timeout\<close>; with \<open>t = 0\<close> there is no timer.
\<close>

definition socket_emits :: "int \<Rightarrow> sock_event list \<Rightarrow> sock_event list" where
  "socket_emits t events = (if events = [] \<and> 0 < t then [Timeout] else events)"

text \<open>
  \<open>performPortCheck host p timeoutMs start events\<close>: \<open>timeoutMs\<close> is an integer, or \<open>None\<close>
  when the argument is omitted (\<open>Math.max\<close> of two integers is an integer of at least
  1000, which \<open>socket.setTimeout\<close> accepts); \<open>start\<close> is the first \<open>Date.now()\<close>; and
  \<open>events\<close> lists, in order, what the connection attempt makes the socket emit, which is
  nothing when the peer stays silent, and nothing when \<open>socket.connect\<close> has thrown. The
  promise the call returns is the field \<open>promise\<close> of the result.
\<close>

definition performPortCheck :: "string \<Rightarrow> jsnum \<Rightarrow> int option \<Rightarrow> int \<Rightarrow> sock_event list \<Rightarrow> probe" where
  "performPortCheck host p timeoutMs start events =
     (let t = (case timeoutMs of None \<Rightarrow> MIN_TIMEOUT_MS | Some ms \<Rightarrow> ms) in
      foldl (emit p start)
        \<lparr>socket_timeout = max t MIN_TIMEOUT_MS,
         connect_to = (host, p),
         listeners = [OnConnect, OnTimeout, OnError],
         resolved = False,
         destroy_calls = 0,
         promise = (if isLegalPort p then Pending else Rejected)\<rparr>
        (socket_emits (max t MIN_TIMEOUT_MS) (if isLegalPort p then events else [])))"

section \<open>The request handler (\<open>handleScan\<close>)\<close>

record ScanResult =
  target :: string
  ip :: string
  results :: "PortResult list"
  timestamp :: string

datatype body = ErrorBody string | ScanBody ScanResult

record response =
  code :: nat
  body :: body

text \<open>
  The request: the remote address of its socket and its body. \<open>payload\<close> is what
  \<open>JSON.parse(body || '{}')\<close> and the destructuring of \<open>target\<close> and \<open>ports\<close> give: an error
  thrown (the text is not JSON, or it is \<open>null\<close>), or the two values, \<open>target\<close> being
  \<open>None\<close> when it is not a string and \<open>ports\<close> being \<open>None\<close> when it is not an array.
\<close>

datatype 'a payload = Thrown string | Payload "string option" "'a list option"

record 'a request =
  remoteAddress :: "string option"
  payload :: "'a payload"

text \<open>
  What the handler reads from outside: the clock at admission, the resolver, for each
  port the clock at the start of its probe and the events of its socket, the message of
  the \<open>RangeError\<close> that \<open>socket.connect\<close> throws for a port, and the time stamp of the
  response.
\<close>

record env =
  now :: int
  lookup :: "string \<Rightarrow> error + string list"
  probe_start :: "jsnum \<Rightarrow> int"
  probe_events :: "jsnum \<Rightarrow> sock_event list"
  bad_port_message :: "jsnum \<Rightarrow> string"
  iso_time :: string

text \<open>
  The loop over \<open>validatedPorts\<close>: each probe is awaited before the next one starts.
  \<open>None\<close>: a promise stays pending, and the handler never goes on. \<open>Inl\<close>: a promise is
  rejected, and \<open>await\<close> throws its error.
\<close>

fun probe_all :: "env \<Rightarrow> string \<Rightarrow> jsnum list \<Rightarrow> PortResult list \<Rightarrow> (error + PortResult list) option" where
  "probe_all e addr [] acc = Some (Inr acc)"
| "probe_all e addr (p # ps) acc =
     (case promise (performPortCheck addr p None (probe_start e p) (probe_events e p)) of
        Pending \<Rightarrow> None
      | Rejected \<Rightarrow> Some (Inl (Error (bad_port_message e p)))
      | Resolved r \<Rightarrow> probe_all e addr ps (acc @ [r]))"

text \<open>The \<open>catch\<close> clause.\<close>

definition on_error :: "error \<Rightarrow> response" where
  "on_error err =
     \<lparr>code = (if includes_str (message err) ''rate'' then 429 else 400),
      body = ErrorBody (if message err = [] then ''Invalid request'' else message err)\<rparr>"

text \<open>The \<open>try\<close> block after admission: an error thrown, or the response if one is sent.\<close>

definition scan_admitted :: "('a \<Rightarrow> jsnum) \<Rightarrow> 'a request \<Rightarrow> env \<Rightarrow> error + response option" where
  "scan_admitted Number req e =
     (case payload req of
        Thrown m \<Rightarrow> Inl (Error m)
      | Payload tgt ps \<Rightarrow>
          (case validatePorts Number ps of
             Inl err \<Rightarrow> Inl err
           | Inr validatedPorts \<Rightarrow>
               (case resolveTarget (lookup e) tgt of
                  Inl err \<Rightarrow> Inl err
                | Inr rt \<Rightarrow>
                    (case probe_all e (address rt) validatedPorts [] of
                       None \<Rightarrow> Inr None
                     | Some (Inl err) \<Rightarrow> Inl err
                     | Some (Inr rs) \<Rightarrow>
                         Inr (Some \<lparr>code = 200,
                                    body = ScanBody \<lparr>target = hostname rt, ip = address rt,
                                                     results = rs, timestamp = iso_time e\<rparr>\<rparr>)))))"

text \<open>\<open>request.socket.remoteAddress || 'unknown'\<close>\<close>

definition clientId_of :: "'a request \<Rightarrow> string" where
  "clientId_of req =
     (case remoteAddress req of None \<Rightarrow> ''unknown'' | Some a \<Rightarrow> if a = [] then ''unknown'' else a)"

text \<open>
  \<open>handleScan\<close> once the body has arrived: the response, if one is sent, and the
  rate-limit map the call leaves.
\<close>

definition handleScan :: "('a \<Rightarrow> jsnum) \<Rightarrow> rate_state \<Rightarrow> 'a request \<Rightarrow> env \<Rightarrow> response option \<times> rate_state" where
  "handleScan Number rateLimitMap req e =
     (let clientId = clientId_of req;
          (admitted, m) = enforceRateLimit rateLimitMap (now e) clientId
      in
      if \<not> admitted
      then (Some \<lparr>code = 429,
                  body = ErrorBody ''Too many requests: wait 10 seconds between scans.''\<rparr>, m)
      else
        (case scan_admitted Number req e of
           Inl err \<Rightarrow> (Some (on_error err), m)
         | Inr r \<Rightarrow> (r, m)))"

section \<open>Notions of the specification\<close>

text \<open>The regular language of an expression, to say what \<^const>\<open>rmatch\<close> computes.\<close>

primrec lang :: "rx \<Rightarrow> string set" where
  "lang Eps = {[]}"
| "lang (Cls cs) = (\<lambda>c. [c]) ` set cs"
| "lang (Many cs) = {w. set w \<subseteq> set cs}"
| "lang (Seq a b) = {u @ v | u v. u \<in> lang a \<and> v \<in> lang b}"
| "lang (Alt a b) = lang a \<union> lang b"

text \<open>
  An IPv4 address is a number below \<open>2 ^ 32\<close>; \<open>a.b.c.d\<close> denotes \<open>ipv4_addr a b c d\<close>. An
  address lies in the block \<open>base/len\<close> when its first \<open>len\<close> bits are those of \<open>base\<close>.
\<close>

definition ipv4_addr :: "nat \<Rightarrow> nat \<Rightarrow> nat \<Rightarrow> nat \<Rightarrow> nat" where
  "ipv4_addr a b c d = ((a * 256 + b) * 256 + c) * 256 + d"

definition in_cidr :: "nat \<Rightarrow> nat \<Rightarrow> nat \<Rightarrow> bool" where
  "in_cidr x base len = (x div 2 ^ (32 - len) = base div 2 ^ (32 - len))"

text \<open>The address a dotted-decimal literal denotes.\<close>

definition ipv4_value :: "string \<Rightarrow> nat" where
  "ipv4_value s =
     (case map dec_value (split_on CHR ''.'' s) of
        [a, b, c, d] \<Rightarrow> ipv4_addr a b c d
      | _ \<Rightarrow> 0)"

text \<open>
  The address an IPv6 literal denotes when it is written in full: eight groups of one to
  four hexadecimal digits, without \<open>::\<close> and without a dotted-decimal tail.
\<close>

definition hex_val :: "char \<Rightarrow> nat" where
  "hex_val c =
     (case map_of (zip hex_digits [0, 1, 2, 3, 4, 5, 6, 7, 8, 9, 10, 11, 12, 13, 14, 15,
                                   10, 11, 12, 13, 14, 15]) c of
        Some v \<Rightarrow> v | None \<Rightarrow> 0)"

definition group_value :: "string \<Rightarrow> nat" where
  "group_value g = foldl (\<lambda>acc c. 16 * acc + hex_val c) 0 g"

definition ipv6_full_value :: "string \<Rightarrow> nat option" where
  "ipv6_full_value s =
     (let groups = split_on CHR '':'' s in
      if length groups = 8
         \<and> list_all (\<lambda>g. g \<noteq> [] \<and> length g \<le> 4 \<and> list_all (\<lambda>c. c \<in> set hex_digits) g) groups
      then Some (foldl (\<lambda>acc g. 65536 * acc + group_value g) 0 groups)
      else None)"

text \<open>
  A decimal octet: one or more decimal digits whose value is at most 255. A string is a
  dotted quad when its parts between the dots are four octets.
\<close>

definition octet_string :: "string \<Rightarrow> bool" where
  "octet_string w = (w \<noteq> [] \<and> list_all (\<lambda>c. c \<in> set digits) w \<and> dec_value w \<le> 255)"

definition dotted_octets :: "string \<Rightarrow> bool" where
  "dotted_octets s =
     (case split_on CHR ''.'' s of
        [a, b, c, d] \<Rightarrow> octet_string a \<and> octet_string b \<and> octet_string c \<and> octet_string d
      | _ \<Rightarrow> False)"

text \<open>A check, on the expression, that every match contains the character \<open>c\<close>.\<close>

fun must_contain :: "char \<Rightarrow> rx \<Rightarrow> bool" where
  "must_contain c Eps = False"
| "must_contain c (Cls cs) = (cs = [c])"
| "must_contain c (Many cs) = False"
| "must_contain c (Seq a b) = (must_contain c a \<or> must_contain c b)"
| "must_contain c (Alt a b) = (must_contain c a \<and> must_contain c b)"

text \<open>A list without its repetitions: each element stays where it first occurs.\<close>

fun dedup_first :: "'a list \<Rightarrow> 'a list" where
  "dedup_first [] = []"
| "dedup_first (x # xs) = x # dedup_first (filter (\<lambda>y. y \<noteq> x) xs)"

text \<open>What the listener of an event passes to \<open>resolve\<close>.\<close>

definition outcome :: "jsnum \<Rightarrow> int \<Rightarrow> sock_event \<Rightarrow> PortResult" where
  "outcome p start ev =
     (case ev of
        Connect t \<Rightarrow> \<lparr>port = p, status = Open, latency_ms = Some (t - start)\<rparr>
      | Timeout \<Rightarrow> \<lparr>port = p, status = Filtered, latency_ms = None\<rparr>
      | SockError c \<Rightarrow>
          if c = Some ''ECONNREFUSED'' then \<lparr>port = p, status = Closed, latency_ms = None\<rparr>
          else \<lparr>port = p, status = Filtered, latency_ms = None\<rparr>)"

section \<open>A sample exchange\<close>

text \<open>
  A client asks for ports 443, 80 and 443 again of \<open>example.com\<close>. The resolver answers
  with a private and a public address; port 80 accepts the connection after 42 ms and
  port 443 refuses it.
\<close>

definition sample_env :: env where
  "sample_env =
     \<lparr>now = 1700000000000,
      lookup = (\<lambda>name. Inr [''10.0.0.1'', ''93.184.216.34'']),
      probe_start = (\<lambda>p. 1700000000100),
      probe_events = (\<lambda>p. if p = Num 80 then [Connect 1700000000142]
                            else [SockError (Some ''ECONNREFUSED'')]),
      bad_port_message = (\<lambda>p. ''Port should be >= 0 and < 65536.''),
      iso_time = ''2023-11-14T22:13:20.000Z''\<rparr>"

definition sample_request :: "jsnum request" where
  "sample_request =
     \<lparr>remoteAddress = Some ''198.51.100.9'',
      payload = Payload (Some ''example.com'') (Some [Num 443, Num 80, Num 443])\<rparr>"

definition sample_results :: "PortResult list" where
  "sample_results =
     [\<lparr>port = Num 443, status = Closed, latency_ms = None\<rparr>,
      \<lparr>port = Num 80, status = Open, latency_ms = Some 42\<rparr>]"

definition sample_response :: response where
  "sample_response =
     \<lparr>code = 200,
      body = ScanBody \<lparr>target = ''example.com'', ip = ''93.184.216.34'',
                       results = sample_results, timestamp = ''2023-11-14T22:13:20.000Z''\<rparr>\<rparr>"

text \<open>The same client, three seconds earlier, asking for a port that is not allowed.\<close>

definition earlier_env :: env where
  "earlier_env = sample_env\<lparr>now := 1699999997000\<rparr>"

definition bad_request :: "jsnum request" where
  "bad_request =
     \<lparr>remoteAddress = Some ''198.51.100.9'',
      payload = Payload (Some ''example.com'') (Some [Num 9999])\<rparr>"

definition too_many_requests :: response where
  "too_many_requests =
     \<lparr>code = 429, body = ErrorBody ''Too many requests: wait 10 seconds between scans.''\<rparr>"

section \<open>What the matcher computes\<close>

lemma rmatch_Many:
  "set (rmatch (Many cs) s) = {rest. \<exists>pre. set pre \<subseteq> set cs \<and> s = pre @ rest}"
proof (intro set_eqI iffI)
  fix rest
  assume "rest \<in> set (rmatch (Many cs) s)"
  then obtain n where n: "n \<le> length (takeWhile (\<lambda>c. c \<in> set cs) s)" and rest: "rest = drop n s"
    by (auto simp add: less_Suc_eq_le simp del: upt_Suc)
  have "take n s = take n (takeWhile (\<lambda>c. c \<in> set cs) s)"
    using n by (metis append_eq_conv_conj append_take_drop_id takeWhile_dropWhile_id take_append
        diff_is_0_eq take_0 append_Nil2)
  then have "set (take n s) \<subseteq> set (takeWhile (\<lambda>c. c \<in> set cs) s)"
    by (simp add: set_take_subset)
  moreover have "set (takeWhile (\<lambda>c. c \<in> set cs) s) \<subseteq> set cs"
    by (auto dest: set_takeWhileD)
  ultimately have "set (take n s) \<subseteq> set cs" by blast
  moreover have "s = take n s @ rest" by (simp add: rest)
  ultimately show "rest \<in> {rest. \<exists>pre. set pre \<subseteq> set cs \<and> s = pre @ rest}" by blast
next
  fix rest
  assume "rest \<in> {rest. \<exists>pre. set pre \<subseteq> set cs \<and> s = pre @ rest}"
  then obtain pre where pre: "set pre \<subseteq> set cs" and s: "s = pre @ rest" by blast
  from pre have "takeWhile (\<lambda>c. c \<in> set cs) (pre @ rest) = pre @ takeWhile (\<lambda>c. c \<in> set cs) rest"
    by (intro takeWhile_append2) blast
  then have "length pre \<le> length (takeWhile (\<lambda>c. c \<in> set cs) s)"
    by (simp add: s)
  moreover have "rest = drop (length pre) s" by (simp add: s)
  ultimately show "rest \<in> set (rmatch (Many cs) s)"
    by (auto simp add: image_iff less_Suc_eq_le simp del: upt_Suc intro!: bexI [of _ "length pre"])
qed

lemma rmatch_lang: "set (rmatch r s) = {rest. \<exists>pre \<in> lang r. s = pre @ rest}"
proof (induction r arbitrary: s)
  case Eps
  then show ?case by auto
next
  case (Cls cs)
  then show ?case by (cases s) auto
next
  case (Many cs)
  show ?case unfolding rmatch_Many by auto
next
  case (Seq a b)
  show ?case
    by (auto simp add: Seq.IH) (metis append.assoc)+
next
  case (Alt a b)
  then show ?case by auto
qed

lemma regex_test_lang: "regex_test r s = (s \<in> lang r)"
  by (simp add: regex_test_def rmatch_lang)

section \<open>The strings \<open>net.isIP\<close> classifies as 4\<close>

lemma digit_val_le: "c \<in> set digits \<Longrightarrow> digit_val c \<le> 9"
  by (auto simp add: digits_def digit_val_def)

lemma digit_classes:
  "c \<in> set ''012345'' \<Longrightarrow> c \<in> set digits \<and> digit_val c \<le> 5"
  "c \<in> set ''01234'' \<Longrightarrow> c \<in> set digits \<and> digit_val c \<le> 4"
  "c \<in> set ''123456789'' \<Longrightarrow> c \<in> set digits"
  "CHR ''1'' \<in> set digits" "CHR ''2'' \<in> set digits" "CHR ''5'' \<in> set digits"
  "digit_val CHR ''1'' = 1" "digit_val CHR ''2'' = 2" "digit_val CHR ''5'' = 5"
  by (auto simp add: digits_def digit_val_def)

lemma dec_value_simps:
  "dec_value [a] = digit_val a"
  "dec_value [a, b] = 10 * digit_val a + digit_val b"
  "dec_value [a, b, c] = 100 * digit_val a + 10 * digit_val b + digit_val c"
  by (simp_all add: dec_value_def)

lemma lang_Lit: "lang (Lit c) = {[c]}"
  by (simp add: Lit_def)

lemma v4Seg_octet: "w \<in> lang v4Seg \<Longrightarrow> octet_string w"
proof -
  assume "w \<in> lang v4Seg"
  then consider
      c where "w = [CHR ''2'', CHR ''5'', c]" "c \<in> set ''012345''"
    | b c where "w = [CHR ''2'', b, c]" "b \<in> set ''01234''" "c \<in> set digits"
    | b c where "w = [CHR ''1'', b, c]" "b \<in> set digits" "c \<in> set digits"
    | b c where "w = [b, c]" "b \<in> set ''123456789''" "c \<in> set digits"
    | c where "w = [c]" "c \<in> set digits"
    unfolding v4Seg_def by (auto simp add: lang_Lit)
  then show ?thesis
  proof cases
    case 1
    from 1(2) have "c \<in> set digits \<and> digit_val c \<le> 5" by (rule digit_classes)
    with 1(1) show ?thesis
      by (simp add: octet_string_def dec_value_simps digit_classes)
  next
    case 2
    from 2(2) have "b \<in> set digits \<and> digit_val b \<le> 4" by (rule digit_classes)
    with 2(1,3) digit_val_le [of c] show ?thesis
      by (simp add: octet_string_def dec_value_simps digit_classes)
  next
    case 3
    with digit_val_le [of b] digit_val_le [of c] show ?thesis
      by (simp add: octet_string_def dec_value_simps digit_classes)
  next
    case 4
    from 4(2) have "b \<in> set digits" by (rule digit_classes)
    with 4(1,3) digit_val_le [of b] digit_val_le [of c] show ?thesis
      by (simp add: octet_string_def dec_value_simps)
  next
    case 5
    with digit_val_le [of c] show ?thesis
      by (simp add: octet_string_def dec_value_simps)
  qed
qed

lemma octet_string_no_dot: "octet_string w \<Longrightarrow> CHR ''.'' \<notin> set w"
proof
  assume "octet_string w" and "CHR ''.'' \<in> set w"
  then have "CHR ''.'' \<in> set digits"
    by (simp add: octet_string_def list_all_iff)
  then show False by (simp add: digits_def)
qed

lemma split_on_no_sep: "c \<notin> set a \<Longrightarrow> split_on c a = [a]"
proof (induction a)
  case Nil
  then show ?case by simp
next
  case (Cons x xs)
  then have "x \<noteq> c" and "split_on c xs = [xs]"
    by auto
  then show ?case by simp
qed

lemma split_on_append: "c \<notin> set a \<Longrightarrow> split_on c (a @ c # rest) = a # split_on c rest"
proof (induction a)
  case Nil
  then show ?case by simp
next
  case (Cons x xs)
  then have "x \<noteq> c" and "split_on c (xs @ c # rest) = xs # split_on c rest"
    by auto
  then show ?case by simp
qed

lemma lang_SeqE:
  assumes "w \<in> lang (Seq a b)"
  obtains u v where "w = u @ v" "u \<in> lang a" "v \<in> lang b"
  using assms by auto

lemma seg_dotE:
  assumes "w \<in> lang (Seq v4Seg (Lit CHR ''.''))"
  obtains a where "w = a @ [CHR ''.'']" "a \<in> lang v4Seg"
  using assms by (auto simp add: lang_Lit)

lemma v4Str_parts:
  assumes "s \<in> lang v4Str"
  shows "\<exists>a b c d. s = a @ CHR ''.'' # b @ CHR ''.'' # c @ CHR ''.'' # d
           \<and> octet_string a \<and> octet_string b \<and> octet_string c \<and> octet_string d"
proof -
  have three: "times 3 r = Seq r (Seq r (Seq r Eps))" for r
    by (simp add: eval_nat_numeral)
  from assms obtain h d where s: "s = h @ d" and d: "d \<in> lang v4Seg"
    and h: "h \<in> lang (Seq (Seq v4Seg (Lit CHR ''.'')) (Seq (Seq v4Seg (Lit CHR ''.''))
              (Seq (Seq v4Seg (Lit CHR ''.'')) Eps)))"
    unfolding v4Str_def three by (rule lang_SeqE)
  from h obtain x1 h1 where h1: "h = x1 @ h1" "x1 \<in> lang (Seq v4Seg (Lit CHR ''.''))"
    "h1 \<in> lang (Seq (Seq v4Seg (Lit CHR ''.'')) (Seq (Seq v4Seg (Lit CHR ''.'')) Eps))"
    by (rule lang_SeqE)
  from h1(3) obtain x2 h2 where h2: "h1 = x2 @ h2" "x2 \<in> lang (Seq v4Seg (Lit CHR ''.''))"
    "h2 \<in> lang (Seq (Seq v4Seg (Lit CHR ''.'')) Eps)"
    by (rule lang_SeqE)
  from h2(3) obtain x3 h3 where h3: "h2 = x3 @ h3" "x3 \<in> lang (Seq v4Seg (Lit CHR ''.''))"
    "h3 \<in> lang Eps"
    by (rule lang_SeqE)
  from h1(2) obtain a where a: "x1 = a @ [CHR ''.'']" "a \<in> lang v4Seg" by (rule seg_dotE)
  from h2(2) obtain b where b: "x2 = b @ [CHR ''.'']" "b \<in> lang v4Seg" by (rule seg_dotE)
  from h3(2) obtain c where c: "x3 = c @ [CHR ''.'']" "c \<in> lang v4Seg" by (rule seg_dotE)
  from h3(3) have "h3 = []" by simp
  with s h1(1) h2(1) h3(1) a(1) b(1) c(1)
  have "s = a @ CHR ''.'' # b @ CHR ''.'' # c @ CHR ''.'' # d" by simp
  with a(2) b(2) c(2) d show ?thesis
    using v4Seg_octet by blast
qed

lemma isIPv4_parts:
  assumes "isIPv4 s"
  shows "\<exists>a b c d. split_on CHR ''.'' s = [a, b, c, d]
           \<and> octet_string a \<and> octet_string b \<and> octet_string c \<and> octet_string d"
proof -
  from assms have "s \<in> lang v4Str"
    by (simp add: isIPv4_def IPv4Reg_def regex_test_lang)
  from v4Str_parts [OF this] obtain a b c d where
    s: "s = a @ CHR ''.'' # b @ CHR ''.'' # c @ CHR ''.'' # d"
    and o: "octet_string a" "octet_string b" "octet_string c" "octet_string d"
    by blast
  from o have "split_on CHR ''.'' s = [a, b, c, d]"
    unfolding s by (simp add: split_on_append split_on_no_sep octet_string_no_dot)
  with o show ?thesis by blast
qed

lemma Number_digits_octet:
  "octet_string w \<Longrightarrow> Number_digits w = Num (real (dec_value w))"
  by (simp add: octet_string_def Number_digits_def)

lemma bad_octet_Num: "bad_octet (Num (real n)) = (255 < n)"
  by (simp add: bad_octet_def)

lemma isPrivateIpv4_octets:
  assumes "split_on CHR ''.'' s = [a, b, c, d]"
    and "octet_string a" "octet_string b" "octet_string c" "octet_string d"
  shows "isPrivateIpv4 s =
     (dec_value a = 10 \<or> dec_value a = 127 \<or> dec_value a = 0
      \<or> (dec_value a = 169 \<and> dec_value b = 254)
      \<or> (dec_value a = 172 \<and> 16 \<le> dec_value b \<and> dec_value b \<le> 31)
      \<or> (dec_value a = 192 \<and> dec_value b = 168))"
proof -
  from assms have bounds: "dec_value a \<le> 255" "dec_value b \<le> 255" "dec_value c \<le> 255" "dec_value d \<le> 255"
    by (simp_all add: octet_string_def)
  have octets: "map Number_digits (split_on CHR ''.'' s) =
      [Num (real (dec_value a)), Num (real (dec_value b)), Num (real (dec_value c)), Num (real (dec_value d))]"
    using assms by (simp add: Number_digits_octet)
  have nth: "[x0, x1, x2, x3] ! 0 = x0" "[x0, x1, x2, x3] ! 1 = x1" for x0 x1 x2 x3 :: jsnum
    by simp_all
  have ok: "\<not> (length [Num (real (dec_value a)), Num (real (dec_value b)),
                        Num (real (dec_value c)), Num (real (dec_value d))] \<noteq> 4
              \<or> list_ex bad_octet [Num (real (dec_value a)), Num (real (dec_value b)),
                        Num (real (dec_value c)), Num (real (dec_value d))])"
    using bounds by (simp add: bad_octet_Num)
  have cmp: "js_le (Num 16) (Num (real n)) = (16 \<le> n)" "js_le (Num (real n)) (Num 31) = (n \<le> 31)" for n
    by (auto simp add: js_le_def)
  show ?thesis
    unfolding isPrivateIpv4_def octets Let_def nth if_not_P [OF ok] cmp
    by simp
qed

section \<open>The strings \<open>net.isIP\<close> classifies as 6\<close>

lemma must_contain_lang: "must_contain c r \<Longrightarrow> w \<in> lang r \<Longrightarrow> c \<in> set w"
  by (induction r arbitrary: w) auto

lemma IPv6Reg_colon: "must_contain CHR '':'' IPv6Reg"
  by code_simp

lemma isIPv6_colon: "isIPv6 s \<Longrightarrow> CHR '':'' \<in> set s"
  using must_contain_lang [OF IPv6Reg_colon] by (simp add: isIPv6_def regex_test_lang)

lemma isIPv4_dotted: "isIPv4 s \<Longrightarrow> dotted_octets s"
  using isIPv4_parts [of s] by (auto simp add: dotted_octets_def)

section \<open>Address blocks\<close>

lemma ipv4_addr_high:
  assumes "c \<le> 255" "d \<le> 255"
  shows "ipv4_addr a b c d div 65536 = a * 256 + b"
proof -
  have "ipv4_addr a b c d = (c * 256 + d) + (a * 256 + b) * 65536"
    by (simp add: ipv4_addr_def algebra_simps)
  moreover from assms have "c * 256 + d < 65536" by simp
  ultimately show ?thesis by simp
qed


lemma ipv4_addr_div:
  assumes "c \<le> 255" "d \<le> 255"
  shows "ipv4_addr a b c d div (65536 * k) = (a * 256 + b) div k"
  using ipv4_addr_high [OF assms, of a b] by (simp add: div_mult2_eq)

lemma cidr_8: 
  assumes "b \<le> 255" "c \<le> 255" "d \<le> 255"
  shows "in_cidr (ipv4_addr a b c d) (ipv4_addr n 0 0 0) 8 = (a = n)"
proof -
  have "in_cidr (ipv4_addr a b c d) (ipv4_addr n 0 0 0) 8
      = (ipv4_addr a b c d div (65536 * 256) = ipv4_addr n 0 0 0 div (65536 * 256))"
    by (simp add: in_cidr_def)
  also have "\<dots> = ((a * 256 + b) div 256 = (n * 256 + 0) div 256)"
    using assms by (simp only: ipv4_addr_div le0)
  also have "\<dots> = (a = n)"
    using assms(1) by simp
  finally show ?thesis .
qed

lemma cidr_16: 
  assumes "b \<le> 255" "c \<le> 255" "d \<le> 255" "m \<le> 255"
  shows "in_cidr (ipv4_addr a b c d) (ipv4_addr n m 0 0) 16 = (a = n \<and> b = m)"
proof -
  have "in_cidr (ipv4_addr a b c d) (ipv4_addr n m 0 0) 16
      = (ipv4_addr a b c d div 65536 = ipv4_addr n m 0 0 div 65536)"
    by (simp add: in_cidr_def)
  also have "\<dots> = (a * 256 + b = n * 256 + m)"
    using assms by (simp only: ipv4_addr_high le0)
  also have "\<dots> = (a = n \<and> b = m)"
  proof
    assume eq: "a * 256 + b = n * 256 + m"
    then have "(a * 256 + b) div 256 = (n * 256 + m) div 256" by simp
    with assms(1,4) have "a = n" by simp
    with eq show "a = n \<and> b = m" by simp
  qed simp
  finally show ?thesis .
qed

lemma cidr_12: 
  assumes "b \<le> 255" "c \<le> 255" "d \<le> 255"
  shows "in_cidr (ipv4_addr a b c d) (ipv4_addr 172 16 0 0) 12 = (a = 172 \<and> 16 \<le> b \<and> b \<le> 31)"
proof -
  have "in_cidr (ipv4_addr a b c d) (ipv4_addr 172 16 0 0) 12
      = (ipv4_addr a b c d div (65536 * 16) = ipv4_addr 172 16 0 0 div (65536 * 16))"
    by (simp add: in_cidr_def)
  also have "\<dots> = ((a * 256 + b) div 16 = (172 * 256 + 16) div 16)"
    using assms by (simp only: ipv4_addr_div le0)
  also have "\<dots> = (a * 16 + b div 16 = 2753)"
  proof -
    have "a * 256 + b = b + (a * 16) * 16" by simp
    then have "(a * 256 + b) div 16 = a * 16 + b div 16"
      by (simp only: div_mult_self1)
    then show ?thesis by simp
  qed
  also have "\<dots> = (a = 172 \<and> b div 16 = 1)"
  proof -
    from assms(1) have q: "b div 16 < 16" by simp
    show ?thesis
    proof
      assume e: "a * 16 + b div 16 = 2753"
      from q have "(a * 16 + b div 16) mod 16 = b div 16" by simp
      with e have "b div 16 = 1" by simp
      with e show "a = 172 \<and> b div 16 = 1" by simp
    qed simp
  qed
  also have "\<dots> = (a = 172 \<and> 16 \<le> b \<and> b \<le> 31)"
  proof -
    have "(b div 16 = 1) = (16 \<le> b \<and> b \<le> 31)"
    proof
      assume one: "b div 16 = 1"
      have "b = 16 * (b div 16) + b mod 16" by simp
      with one have "b = 16 + b mod 16" by simp
      moreover have "b mod 16 < 16" by simp
      ultimately show "16 \<le> b \<and> b \<le> 31" by linarith
    next
      assume "16 \<le> b \<and> b \<le> 31"
      then show "b div 16 = 1" by (intro div_nat_eqI) simp_all
    qed
    then show ?thesis by simp
  qed
  finally show ?thesis .
qed

section \<open>Address classification\<close>

lemma lower_char_fixed:
  "(lower_char c = CHR '':'') = (c = CHR '':'')"
  "(lower_char c = CHR ''1'') = (c = CHR ''1'')"
  by (auto simp add: lower_char_def upper_letters_def lower_letters_def)

lemma toLowerCase_loopback: "(toLowerCase s = ''::1'') = (s = ''::1'')"
  by (auto simp add: toLowerCase_def map_eq_Cons_conv lower_char_fixed)

lemma isIP_4: "(isIP s = 4) = isIPv4 s"
  by (simp add: isIP_def)

lemma isIP_empty: "isIP [] = 0"
  by code_simp

lemma isIP_6: "isIP s = 6 \<Longrightarrow> s \<noteq> [] \<and> isIP s \<noteq> 4"
  using isIP_empty by auto

lemma isPrivateIp_v4:
  assumes "isIP s = 4"
  shows "isPrivateIp (Str s) =
     (in_cidr (ipv4_value s) (ipv4_addr 10 0 0 0) 8
      \<or> in_cidr (ipv4_value s) (ipv4_addr 127 0 0 0) 8
      \<or> in_cidr (ipv4_value s) (ipv4_addr 0 0 0 0) 8
      \<or> in_cidr (ipv4_value s) (ipv4_addr 169 254 0 0) 16
      \<or> in_cidr (ipv4_value s) (ipv4_addr 172 16 0 0) 12
      \<or> in_cidr (ipv4_value s) (ipv4_addr 192 168 0 0) 16)"
proof -
  from assms have "isIPv4 s" by (simp add: isIP_4)
  from isIPv4_parts [OF this] obtain a b c d where
    parts: "split_on CHR ''.'' s = [a, b, c, d]"
    and o: "octet_string a" "octet_string b" "octet_string c" "octet_string d"
    by blast
  from parts have ne: "s \<noteq> []" by auto
  from o have le: "dec_value b \<le> 255" "dec_value c \<le> 255" "dec_value d \<le> 255"
    by (simp_all add: octet_string_def)
  have v: "ipv4_value s = ipv4_addr (dec_value a) (dec_value b) (dec_value c) (dec_value d)"
    by (simp add: ipv4_value_def parts)
  from assms ne have "isPrivateIp (Str s) = isPrivateIpv4 s" by simp
  also note isPrivateIpv4_octets [OF parts o]
  finally show ?thesis
    unfolding v cidr_8 [OF le] cidr_12 [OF le] cidr_16 [OF le]
    by (simp add: cidr_16 [OF le])
qed

lemma isPrivateIp_v6:
  assumes "isIP s = 6"
  shows "isPrivateIp (Str s) =
     (s = ''::1'' \<or> prefix ''fe80:'' (toLowerCase s)
      \<or> prefix ''fc'' (toLowerCase s) \<or> prefix ''fd'' (toLowerCase s))"
  using assms isIP_6 [OF assms]
  by (simp add: isPrivateIpv6_def Let_def toLowerCase_loopback)

text \<open>
  Claim C2. \<open>isPrivateIp\<close> answers true for \<open>undefined\<close>, for the empty string, and for
  every string that \<open>net.isIP\<close> does not classify as 4 or 6. Among these are the strings
  without a colon that are not a dotted quad of octets: they have the wrong number of
  parts, or a part that is not a decimal number, or a part above 255. The function has no
  branch that throws.
\<close>

theorem isPrivateIp_fail_closed:
  "isPrivateIp Undefined
   \<and> isPrivateIp (Str [])
   \<and> (isIP s = 0 \<longrightarrow> isPrivateIp (Str s))
   \<and> (CHR '':'' \<notin> set s \<and> \<not> dotted_octets s \<longrightarrow> isIP s = 0 \<and> isPrivateIp (Str s))"
proof -
  have "isIP s = 0" if "CHR '':'' \<notin> set s" "\<not> dotted_octets s"
    using that isIPv6_colon [of s] isIPv4_dotted [of s] by (auto simp add: isIP_def)
  then show ?thesis by simp
qed

theorem isPrivateIp_fail_closed_witness:
  "isIP ''fe80::1::'' = 0 \<and> isPrivateIp (Str ''fe80::1::'')
   \<and> \<not> dotted_octets ''1.2.3'' \<and> isPrivateIp (Str ''1.2.3'')
   \<and> \<not> dotted_octets ''1.2.x.4'' \<and> isPrivateIp (Str ''1.2.x.4'')
   \<and> \<not> dotted_octets ''256.1.1.1'' \<and> isPrivateIp (Str ''256.1.1.1'')"
proof -
  have a: "isIP ''fe80::1::'' = 0"
    by code_simp
  have b: "\<not> dotted_octets ''1.2.3''"
    by (simp add: dotted_octets_def)
  have c: "\<not> dotted_octets ''1.2.x.4''"
    by (simp add: dotted_octets_def octet_string_def digits_def)
  have d: "\<not> dotted_octets ''256.1.1.1''"
    by (simp add: dotted_octets_def octet_string_def dec_value_def digit_val_def digits_def)
  show ?thesis
    using a b c d
      isPrivateIp_fail_closed [of "''fe80::1::''"]
      isPrivateIp_fail_closed [of "''1.2.3''"]
      isPrivateIp_fail_closed [of "''1.2.x.4''"]
      isPrivateIp_fail_closed [of "''256.1.1.1''"]
    by simp
qed

text \<open>
  Claim C3. For a string that \<open>net.isIP\<close> classifies as 4, \<open>isPrivateIp\<close> answers true
  exactly when the address lies in one of 10.0.0.0/8, 127.0.0.0/8, 0.0.0.0/8,
  169.254.0.0/16, 172.16.0.0/12 and 192.168.0.0/16. For a string that \<open>net.isIP\<close>
  classifies as 6, it answers true exactly when the string is \<open>::1\<close> or its lower-case
  form begins with \<open>fe80:\<close>, \<open>fc\<close> or \<open>fd\<close>.
\<close>

theorem isPrivateIp_ranges:
  "(isIP s = 4 \<longrightarrow>
      isPrivateIp (Str s) =
        (in_cidr (ipv4_value s) (ipv4_addr 10 0 0 0) 8
         \<or> in_cidr (ipv4_value s) (ipv4_addr 127 0 0 0) 8
         \<or> in_cidr (ipv4_value s) (ipv4_addr 0 0 0 0) 8
         \<or> in_cidr (ipv4_value s) (ipv4_addr 169 254 0 0) 16
         \<or> in_cidr (ipv4_value s) (ipv4_addr 172 16 0 0) 12
         \<or> in_cidr (ipv4_value s) (ipv4_addr 192 168 0 0) 16))
   \<and> (isIP s = 6 \<longrightarrow>
      isPrivateIp (Str s) =
        (s = ''::1'' \<or> prefix ''fe80:'' (toLowerCase s)
         \<or> prefix ''fc'' (toLowerCase s) \<or> prefix ''fd'' (toLowerCase s)))"
  using isPrivateIp_v4 [of s] isPrivateIp_v6 [of s] by blast

theorem isPrivateIp_ranges_witness:
  "isIP ''172.31.255.254'' = 4 \<and> isPrivateIp (Str ''172.31.255.254'')
   \<and> in_cidr (ipv4_value ''172.31.255.254'') (ipv4_addr 172 16 0 0) 12
   \<and> isIP ''172.32.0.1'' = 4 \<and> \<not> isPrivateIp (Str ''172.32.0.1'')
   \<and> isIP ''FD12:3456::1'' = 6 \<and> isPrivateIp (Str ''FD12:3456::1'')
   \<and> isIP ''2001:4860:4860::8888'' = 6 \<and> \<not> isPrivateIp (Str ''2001:4860:4860::8888'')"
proof -
  have four: "isIP ''172.31.255.254'' = 4" "isIP ''172.32.0.1'' = 4"
    by code_simp+
  have six: "isIP ''FD12:3456::1'' = 6" "isIP ''2001:4860:4860::8888'' = 6"
    by code_simp+
  have v: "ipv4_value ''172.31.255.254'' = ipv4_addr 172 31 255 254"
    "ipv4_value ''172.32.0.1'' = ipv4_addr 172 32 0 1"
    by (simp_all add: ipv4_value_def dec_value_def digit_val_def digits_def)
  have inside: "in_cidr (ipv4_addr 172 31 255 254) (ipv4_addr 172 16 0 0) 12"
    by (simp add: in_cidr_def ipv4_addr_def)
  have outside: "\<not> in_cidr (ipv4_addr 172 32 0 1) (ipv4_addr 10 0 0 0) 8"
    "\<not> in_cidr (ipv4_addr 172 32 0 1) (ipv4_addr 127 0 0 0) 8"
    "\<not> in_cidr (ipv4_addr 172 32 0 1) (ipv4_addr 0 0 0 0) 8"
    "\<not> in_cidr (ipv4_addr 172 32 0 1) (ipv4_addr 169 254 0 0) 16"
    "\<not> in_cidr (ipv4_addr 172 32 0 1) (ipv4_addr 172 16 0 0) 12"
    "\<not> in_cidr (ipv4_addr 172 32 0 1) (ipv4_addr 192 168 0 0) 16"
    by (simp_all add: in_cidr_def ipv4_addr_def)
  have low: "toLowerCase ''FD12:3456::1'' = ''fd12:3456::1''"
    "toLowerCase ''2001:4860:4860::8888'' = ''2001:4860:4860::8888''"
    by code_simp+
  show ?thesis
    using four six inside outside
      isPrivateIp_ranges [of "''172.31.255.254''"]
      isPrivateIp_ranges [of "''172.32.0.1''"]
      isPrivateIp_ranges [of "''FD12:3456::1''"]
      isPrivateIp_ranges [of "''2001:4860:4860::8888''"]
    by (simp add: v low)
qed

section \<open>Target resolution\<close>

text \<open>
  The address \<open>resolveTarget\<close> returns is one that \<open>net.isIP\<close> classifies as 4 or 6 and
  that \<open>isPrivateIp\<close> does not reject.
\<close>

lemma resolveTarget_not_private:
  assumes "resolveTarget dns t = Inr r"
  shows "isIP (address r) \<noteq> 0 \<and> \<not> isPrivateIp (Str (address r))"
proof -
  have np: "isIP a \<noteq> 0" if "\<not> isPrivateIp (Str a)" for a
    using that by (auto split: if_splits)
  from assms show ?thesis
    by (auto simp add: resolveTarget_def Let_def find_Some_iff np
        split: option.splits if_splits sum.splits)
qed

text \<open>White space around the target is stripped, the no-break space included.\<close>

lemma resolveTarget_trims:
  "resolveTarget dns (Some (CHR 0xA0 # '' 8.8.8.8 '')) =
     Inr \<lparr>hostname = ''8.8.8.8'', address = ''8.8.8.8''\<rparr>"
proof -
  have t: "trim (CHR 0xA0 # '' 8.8.8.8 '') = ''8.8.8.8''"
    by code_simp
  have ip: "isIP ''8.8.8.8'' = 4" "\<not> isPrivateIp (Str ''8.8.8.8'')"
    "toLowerCase ''8.8.8.8'' \<noteq> ''localhost''"
    by code_simp+
  show ?thesis
    by (simp add: resolveTarget_def Let_def t ip del: isPrivateIp.simps)
qed

text \<open>
  Claim C1. \<open>isPrivateIpv6\<close> compares text, so it rejects the loopback address only in
  the spelling \<open>::1\<close>. Written in full, the loopback address (the number 1) and the
  unspecified address (the number 0) go through \<open>resolveTarget\<close> as public addresses.
\<close>

theorem resolveTarget_accepts_loopback:
  "resolveTarget dns (Some ''0:0:0:0:0:0:0:1'') =
     Inr \<lparr>hostname = ''0:0:0:0:0:0:0:1'', address = ''0:0:0:0:0:0:0:1''\<rparr>
   \<and> ipv6_full_value ''0:0:0:0:0:0:0:1'' = Some 1
   \<and> ipv6_full_value ''0:0:0:0:0:0:0:0'' = Some 0
   \<and> resolveTarget dns (Some ''0:0:0:0:0:0:0:0'') =
     Inr \<lparr>hostname = ''0:0:0:0:0:0:0:0'', address = ''0:0:0:0:0:0:0:0''\<rparr>"
proof -
  have ip: "isIP ''0:0:0:0:0:0:0:1'' = 6" "isIP ''0:0:0:0:0:0:0:0'' = 6"
    by code_simp+
  have pub: "\<not> isPrivateIp (Str ''0:0:0:0:0:0:0:1'')" "\<not> isPrivateIp (Str ''0:0:0:0:0:0:0:0'')"
    by code_simp+
  have tl: "trim ''0:0:0:0:0:0:0:1'' = ''0:0:0:0:0:0:0:1''"
     "trim ''0:0:0:0:0:0:0:0'' = ''0:0:0:0:0:0:0:0''"
     "toLowerCase ''0:0:0:0:0:0:0:1'' \<noteq> ''localhost''"
     "toLowerCase ''0:0:0:0:0:0:0:0'' \<noteq> ''localhost''"
    by code_simp+
  have val: "ipv6_full_value ''0:0:0:0:0:0:0:1'' = Some 1" "ipv6_full_value ''0:0:0:0:0:0:0:0'' = Some 0"
    by (simp_all add: ipv6_full_value_def group_value_def hex_val_def hex_digits_def)
  show ?thesis
    by (simp add: resolveTarget_def Let_def ip pub tl val del: isPrivateIp.simps)
qed

section \<open>The probe settles with its first event\<close>

lemma closeSocket_fields:
  "promise (closeSocket st) = promise st"
  "socket_timeout (closeSocket st) = socket_timeout st"
  by (simp_all add: closeSocket_def)

lemma resolve_fields:
  "socket_timeout (resolve r st) = socket_timeout st"
  "promise (resolve r st) = (case promise st of Pending \<Rightarrow> Resolved r | q \<Rightarrow> q)"
  by (simp_all add: resolve_def split: promise_state.splits)

lemma listener_timeout: "socket_timeout (listener p start ev st) = socket_timeout st"
  by (cases ev) (simp_all add: closeSocket_fields resolve_fields)

lemma emit_timeout: "socket_timeout (emit p start st ev) = socket_timeout st"
  by (simp add: emit_def listener_timeout)

lemma foldl_emit_timeout: "socket_timeout (foldl (emit p start) st evs) = socket_timeout st"
  by (induction evs arbitrary: st) (simp_all add: emit_timeout)

lemma listener_settled:
  "promise st \<noteq> Pending \<Longrightarrow> promise (listener p start ev st) = promise st"
  by (cases ev) (simp_all add: closeSocket_fields resolve_fields split: promise_state.splits)

lemma emit_settled: "promise st \<noteq> Pending \<Longrightarrow> promise (emit p start st ev) = promise st"
  by (simp add: emit_def listener_settled)

lemma foldl_emit_settled:
  "promise st \<noteq> Pending \<Longrightarrow> promise (foldl (emit p start) st evs) = promise st"
  by (induction evs arbitrary: st) (simp_all add: emit_settled)

lemma first_emit:
  "promise st = Pending \<Longrightarrow> set (listeners st) = {OnConnect, OnTimeout, OnError} \<Longrightarrow>
   promise (emit p start st ev) = Resolved (outcome p start ev)"
  by (cases ev) (auto simp add: emit_def closeSocket_fields resolve_fields outcome_def)

lemma socket_emits_floor:
  "socket_emits (max t MIN_TIMEOUT_MS) [] = [Timeout]"
  "socket_emits (max t MIN_TIMEOUT_MS) (ev # evs) = ev # evs"
  by (simp_all add: socket_emits_def MIN_TIMEOUT_MS_def)

lemma promise_first_event:
  "isLegalPort p \<Longrightarrow>
   promise (performPortCheck host p tm start (ev # evs)) = Resolved (outcome p start ev)"
  unfolding performPortCheck_def Let_def
  by (simp add: socket_emits_floor foldl_emit_settled first_emit)

lemma promise_no_event:
  "isLegalPort p \<Longrightarrow>
   promise (performPortCheck host p tm start []) = Resolved (outcome p start Timeout)"
  unfolding performPortCheck_def Let_def
  by (simp add: socket_emits_floor foldl_emit_settled first_emit)

lemma promise_bad_port:
  "\<not> isLegalPort p \<Longrightarrow> promise (performPortCheck host p tm start events) = Rejected"
  unfolding performPortCheck_def Let_def
  by (simp add: foldl_emit_settled)

lemma outcome_latency:
  "(latency_ms (outcome p start ev) = None) = (status (outcome p start ev) \<noteq> Open)"
  by (cases ev) (simp_all add: outcome_def)

lemma outcome_port: "port (outcome p start ev) = p"
  by (cases ev) (simp_all add: outcome_def)

lemma allowed_ports_legal: "p \<in> set ALLOWED_PORTS \<Longrightarrow> isLegalPort p"
  by (auto simp add: ALLOWED_PORTS_def isLegalPort_def)

text \<open>
  Claim C4, for a port that \<open>socket.connect\<close> accepts (an integer from 0 to 65535). The
  promise of \<open>performPortCheck\<close> is then never rejected and never left pending: it is
  resolved with one \<open>PortResult\<close>, which the first event of the socket decides and no later
  event changes. When the connection attempt makes the socket emit nothing, the idle
  timer emits \<open>timeout\<close>, and the result is \<open>filtered\<close>. Otherwise \<open>connect\<close> gives \<open>open\<close>
  with the elapsed milliseconds as \<open>latency_ms\<close>, an error with code \<open>ECONNREFUSED\<close> gives
  \<open>closed\<close>, and \<open>timeout\<close> and any other error give \<open>filtered\<close>. Whatever the events are,
  the result lacks \<open>latency_ms\<close> exactly when its status is not \<open>open\<close>.
\<close>

theorem performPortCheck_legal_port_resolves:
  assumes "isLegalPort p"
  shows "promise (performPortCheck host p tm start []) =
           Resolved \<lparr>port = p, status = Filtered, latency_ms = None\<rparr>
   \<and> promise (performPortCheck host p tm start (ev # evs)) =
       Resolved (case ev of
                   Connect t \<Rightarrow> \<lparr>port = p, status = Open, latency_ms = Some (t - start)\<rparr>
                 | Timeout \<Rightarrow> \<lparr>port = p, status = Filtered, latency_ms = None\<rparr>
                 | SockError c \<Rightarrow>
                     if c = Some ''ECONNREFUSED''
                     then \<lparr>port = p, status = Closed, latency_ms = None\<rparr>
                     else \<lparr>port = p, status = Filtered, latency_ms = None\<rparr>)
   \<and> (case promise (performPortCheck host p tm start events) of
        Resolved r \<Rightarrow> (latency_ms r = None) = (status r \<noteq> Open)
      | Pending \<Rightarrow> False
      | Rejected \<Rightarrow> False)"
proof -
  have "case promise (performPortCheck host p tm start events) of
          Resolved r \<Rightarrow> (latency_ms r = None) = (status r \<noteq> Open)
        | Pending \<Rightarrow> False
        | Rejected \<Rightarrow> False"
    using assms
    by (cases events) (simp_all add: promise_no_event promise_first_event outcome_latency)
  then show ?thesis
    using promise_first_event [OF assms, of host tm start ev evs]
      promise_no_event [OF assms, of host tm start]
    by (simp add: outcome_def)
qed

theorem performPortCheck_legal_port_resolves_witness:
  "isLegalPort (Num 443)
   \<and> promise (performPortCheck ''93.184.216.34'' (Num 443) (Some 1500) 1700000000100 []) =
       Resolved \<lparr>port = Num 443, status = Filtered, latency_ms = None\<rparr>
   \<and> promise (performPortCheck ''93.184.216.34'' (Num 443) (Some 1500) 1700000000100
         [Connect 1700000000142, Timeout]) =
       Resolved \<lparr>port = Num 443, status = Open, latency_ms = Some 42\<rparr>
   \<and> promise (performPortCheck ''93.184.216.34'' (Num 443) (Some 1500) 1700000000100
         [SockError (Some ''ECONNREFUSED'')]) =
       Resolved \<lparr>port = Num 443, status = Closed, latency_ms = None\<rparr>"
proof -
  have legal: "isLegalPort (Num 443)"
    by (simp add: isLegalPort_def)
  from legal
    performPortCheck_legal_port_resolves [OF legal, of "''93.184.216.34''" "Some 1500"
      1700000000100 "Connect 1700000000142" "[Timeout]" "[]"]
    performPortCheck_legal_port_resolves [OF legal, of "''93.184.216.34''" "Some 1500"
      1700000000100 "SockError (Some ''ECONNREFUSED'')" "[]" "[]"]
  show ?thesis by simp
qed

text \<open>
  A port that \<open>socket.connect\<close> does not accept: the promise is rejected, and the caller
  that awaits it gets the \<open>RangeError\<close>.
\<close>

theorem performPortCheck_bad_port_rejected:
  "promise (performPortCheck ''93.184.216.34'' (Num 70000) None 1700000000100 []) = Rejected"
proof -
  have "\<not> isLegalPort (Num 70000)"
    by (simp add: isLegalPort_def)
  then show ?thesis by (rule promise_bad_port)
qed

text \<open>
  Claim C6. The timeout given to the socket is the larger of \<open>timeoutMs\<close> and 1000, so it
  is never below 1000, and it is 1000 when the argument is omitted.
\<close>

theorem performPortCheck_timeout_floor:
  "socket_timeout (performPortCheck host p (Some timeoutMs) start events) = max timeoutMs 1000
   \<and> 1000 \<le> socket_timeout (performPortCheck host p tm start events)
   \<and> socket_timeout (performPortCheck host p None start events) = 1000"
  by (simp add: performPortCheck_def foldl_emit_timeout MIN_TIMEOUT_MS_def split: option.splits)

section \<open>Rate limiting\<close>

text \<open>
  Claim C5. \<open>Date.now()\<close> counts the milliseconds since the start of 1970, so the clock
  of a running server reads at least 10000. For such a reading the call returns true and
  records it as the time of the client exactly when the client has no record or at least
  10000 ms have passed since the recorded time; otherwise it returns false and leaves
  the map as it is.
\<close>

theorem enforceRateLimit_admits:
  assumes "10000 \<le> t"
  shows "enforceRateLimit m t c =
     (if (case m c of None \<Rightarrow> True | Some l \<Rightarrow> 10000 \<le> t - l)
      then (True, m(c \<mapsto> t))
      else (False, m))"
  using assms
  by (auto simp add: enforceRateLimit_def last_admitted_def RATE_LIMIT_WINDOW_MS_def Let_def
      split: option.splits)

theorem enforceRateLimit_admits_witness:
  "(10000 :: int) \<le> 1700000000000
   \<and> enforceRateLimit no_records 1700000000000 ''198.51.100.9'' =
       (True, no_records(''198.51.100.9'' \<mapsto> 1700000000000))
   \<and> enforceRateLimit (no_records(''198.51.100.9'' \<mapsto> 1699999997000)) 1700000000000 ''198.51.100.9'' =
       (False, no_records(''198.51.100.9'' \<mapsto> 1699999997000))
   \<and> enforceRateLimit (no_records(''198.51.100.9'' \<mapsto> 1699999990000)) 1700000000000 ''198.51.100.9'' =
       (True, no_records(''198.51.100.9'' \<mapsto> 1700000000000))"
proof -
  have clock: "(10000 :: int) \<le> 1700000000000"
    by simp
  from clock
    enforceRateLimit_admits [OF clock, of no_records "''198.51.100.9''"]
    enforceRateLimit_admits [OF clock, of "no_records(''198.51.100.9'' \<mapsto> 1699999997000)"
      "''198.51.100.9''"]
    enforceRateLimit_admits [OF clock, of "no_records(''198.51.100.9'' \<mapsto> 1699999990000)"
      "''198.51.100.9''"]
  show ?thesis by (simp add: no_records_def)
qed

section \<open>Port validation\<close>

lemma set_dedup_first: "set (dedup_first xs) = set xs"
  by (induction xs rule: dedup_first.induct) auto

lemma distinct_dedup_first: "distinct (dedup_first xs)"
  by (induction xs rule: dedup_first.induct) (auto simp add: set_dedup_first)

lemma dedup_first_distinct: "distinct xs \<Longrightarrow> dedup_first xs = xs"
proof (induction xs)
  case Nil
  then show ?case by simp
next
  case (Cons x xs)
  then have "filter (\<lambda>y. y \<noteq> x) xs = xs"
    by (auto intro: filter_True)
  with Cons show ?case by simp
qed

lemma subseq_dedup_first: "subseq (dedup_first xs) xs"
proof (induction xs rule: dedup_first.induct)
  case 1
  then show ?case by simp
next
  case (2 x xs)
  have "subseq (filter (\<lambda>y. y \<noteq> x) xs) xs" by simp
  with 2 have "subseq (dedup_first (filter (\<lambda>y. y \<noteq> x) xs)) xs"
    using subseq_order.order_trans by blast
  then show ?case by simp
qed

lemma foldl_Set_add:
  "foldl Set_add acc xs = acc @ dedup_first (filter (\<lambda>x. x \<notin> set acc) xs)"
proof (induction xs arbitrary: acc)
  case Nil
  then show ?case by simp
next
  case (Cons y ys)
  show ?case
  proof (cases "y \<in> set acc")
    case True
    then have "Set_add acc y = acc" by (simp add: Set_add_def)
    with True show ?thesis by (simp add: Cons.IH)
  next
    case False
    have "filter (\<lambda>x. x \<notin> set (acc @ [y])) ys = filter (\<lambda>x. x \<noteq> y) (filter (\<lambda>x. x \<notin> set acc) ys)"
      by (induction ys) auto
    moreover from False have "Set_add acc y = acc @ [y]" by (simp add: Set_add_def)
    ultimately show ?thesis using False by (simp add: Cons.IH)
  qed
qed

lemma dedupePorts_eq: "dedupePorts xs = dedup_first xs"
  by (simp add: dedupePorts_def foldl_Set_add)

lemma length_dedup_first: "length (dedup_first xs) = card (set xs)"
  using distinct_card[OF distinct_dedup_first, of xs] by (simp add: set_dedup_first)

lemma validatePorts_Some:
  "validatePorts N (Some ps) =
     (if set (map N ps) = {} \<or> card (set (map N ps)) > 20 \<or> \<not> set (map N ps) \<subseteq> set ALLOWED_PORTS
      then Inl (Error (if ps = [] then ''At least one port is required''
                       else if card (set (map N ps)) > 20 then ''Cannot scan more than 20 ports''
                       else ''Ports must be in the allowed list''))
      else Inr (dedup_first (map N ps)))"
proof -
  have f: "(filter (\<lambda>p. p \<notin> set ALLOWED_PORTS) (dedup_first (map N ps)) = []) = (set (map N ps) \<subseteq> set ALLOWED_PORTS)"
    by (auto simp add: filter_empty_conv set_dedup_first)
  have l: "(dedup_first (map N ps) = []) = (ps = [])"
    by (cases ps) simp_all
  show ?thesis
    unfolding validatePorts_def dedupePorts_eq Let_def
    using f l by (simp add: length_dedup_first MAX_PORTS_def del: set_map)
qed


text \<open>
  Claim C7. \<open>validatePorts\<close> throws exactly when the argument is not an array, or the
  set of the coerced elements is empty, has more than 20 members, or has a member outside
  21, 22, 25, 53, 80, 110, 143, 443, 465, 587, 993, 995, 8080. When it returns, the
  result is the list of the coerced elements, each kept where it first occurs and dropped
  where it occurs again. An element whose coercion is not an allowed port (not-a-number
  for one) makes the call throw: it is never left out of the result in silence.
\<close>

theorem validatePorts_fails_iff:
  "((\<exists>err. validatePorts N inp = Inl err) =
      (inp = None \<or>
       (\<exists>ps. inp = Some ps \<and>
          (set (map N ps) = {} \<or> 20 < card (set (map N ps)) \<or>
           \<not> set (map N ps) \<subseteq> Num ` {21, 22, 25, 53, 80, 110, 143, 443, 465, 587, 993, 995, 8080}))))
   \<and> (validatePorts N (Some ps) = Inr out \<longrightarrow>
        out = dedup_first (map N ps) \<and> distinct out \<and> set out = set (map N ps)
        \<and> subseq out (map N ps))
   \<and> (x \<in> set ps \<and> N x \<notin> Num ` {21, 22, 25, 53, 80, 110, 143, 443, 465, 587, 993, 995, 8080} \<longrightarrow>
        (\<exists>err. validatePorts N (Some ps) = Inl err))"
proof -
  have allowed: "set ALLOWED_PORTS = Num ` {21, 22, 25, 53, 80, 110, 143, 443, 465, 587, 993, 995, 8080}"
    by (simp add: ALLOWED_PORTS_def)
  have none: "validatePorts N None = Inl (Error ''Ports must be an array'')"
    by (simp add: validatePorts_def)
  have 1: "(\<exists>err. validatePorts N inp = Inl err) =
      (inp = None \<or>
       (\<exists>ps. inp = Some ps \<and>
          (set (map N ps) = {} \<or> 20 < card (set (map N ps)) \<or>
           \<not> set (map N ps) \<subseteq> Num ` {21, 22, 25, 53, 80, 110, 143, 443, 465, 587, 993, 995, 8080})))"
  proof (cases inp)
    case None
    then show ?thesis by (simp add: none)
  next
    case (Some qs)
    then show ?thesis
      unfolding allowed [symmetric] by (simp add: validatePorts_Some del: set_map)
  qed
  have 2: "validatePorts N (Some ps) = Inr out \<longrightarrow>
        out = dedup_first (map N ps) \<and> distinct out \<and> set out = set (map N ps)
        \<and> subseq out (map N ps)"
    by (auto simp add: validatePorts_Some distinct_dedup_first set_dedup_first subseq_dedup_first
        simp del: set_map split: if_splits)
  have 3: "x \<in> set ps \<and> N x \<notin> Num ` {21, 22, 25, 53, 80, 110, 143, 443, 465, 587, 993, 995, 8080} \<longrightarrow>
        (\<exists>err. validatePorts N (Some ps) = Inl err)"
  proof
    assume h: "x \<in> set ps \<and> N x \<notin> Num ` {21, 22, 25, 53, 80, 110, 143, 443, 465, 587, 993, 995, 8080}"
    then have "N x \<in> set (map N ps)" by simp
    with h have "\<not> set (map N ps) \<subseteq> set ALLOWED_PORTS"
      unfolding allowed by blast
    then show "\<exists>err. validatePorts N (Some ps) = Inl err"
      by (simp add: validatePorts_Some del: set_map)
  qed
  from 1 2 3 show ?thesis by blast
qed

theorem validatePorts_fails_iff_witness:
  "validatePorts (\<lambda>n. n) (Some [Num 80, Num 443, Num 80]) = Inr [Num 80, Num 443]
   \<and> dedup_first [Num 80, Num 443, Num 80] = [Num 80, Num 443]
   \<and> (\<exists>err. validatePorts (\<lambda>n. n) (Some [Num 80, NaN]) = Inl err)"
proof -
  have ok: "validatePorts (\<lambda>n. n) (Some [Num 80, Num 443, Num 80]) = Inr [Num 80, Num 443]"
    by (simp add: validatePorts_def dedupePorts_def Set_add_def MAX_PORTS_def ALLOWED_PORTS_def)
  have bad: "NaN \<in> set [Num 80, NaN]
      \<and> NaN \<notin> Num ` {21, 22, 25, 53, 80, 110, 143, 443, 465, 587, 993, 995, 8080}"
    by auto
  show ?thesis
    using ok bad
      validatePorts_fails_iff [of "\<lambda>n. n" "Some [Num 80, Num 443, Num 80]"
        "[Num 80, Num 443, Num 80]" "[Num 80, Num 443]" "Num 80"]
      validatePorts_fails_iff [of "\<lambda>n. n" "Some [Num 80, NaN]" "[Num 80, NaN]" "[]" NaN]
    by simp
qed

text \<open>
  Claim C9. When \<open>validatePorts\<close> returns a list, \<open>validatePorts\<close> of that list returns
  it again. (The elements of the result are numbers, which \<open>Number\<close> leaves as they are.)
\<close>

theorem validatePorts_idempotent:
  "validatePorts N inp = Inr out \<Longrightarrow> validatePorts (\<lambda>n. n) (Some out) = Inr out"
proof -
  assume a: "validatePorts N inp = Inr out"
  then obtain ps where inp: "inp = Some ps"
    by (cases inp) (simp_all add: validatePorts_def)
  let ?d = "set (map N ps)"
  from a inp have ok: "\<not> (?d = {} \<or> 20 < card ?d \<or> \<not> ?d \<subseteq> set ALLOWED_PORTS)"
    and out: "out = dedup_first (map N ps)"
    by (auto simp add: validatePorts_Some simp del: set_map split: if_splits)
  from out have s: "set out = ?d" and d: "distinct out"
    by (simp_all add: set_dedup_first distinct_dedup_first del: set_map)
  from d have "dedup_first out = out" by (rule dedup_first_distinct)
  with ok s show ?thesis
    using validatePorts_Some [of "\<lambda>n. n" out] by (simp del: set_map)
qed

theorem validatePorts_idempotent_witness:
  "validatePorts (\<lambda>n. n) (Some [Num 80, Num 443, Num 80]) = Inr [Num 80, Num 443]
   \<and> validatePorts (\<lambda>n. n) (Some [Num 80, Num 443]) = Inr [Num 80, Num 443]"
proof -
  have ok: "validatePorts (\<lambda>n. n) (Some [Num 80, Num 443, Num 80]) = Inr [Num 80, Num 443]"
    by (simp add: validatePorts_def dedupePorts_def Set_add_def MAX_PORTS_def ALLOWED_PORTS_def)
  from validatePorts_idempotent [OF ok] ok show ?thesis by simp
qed

section \<open>The request handler\<close>

lemma probe_result_port:
  "promise (performPortCheck host p tm start evs) = Resolved r \<Longrightarrow> port r = p"
proof (cases "isLegalPort p")
  case True
  assume "promise (performPortCheck host p tm start evs) = Resolved r"
  with True show ?thesis
    by (cases evs) (auto simp add: promise_no_event promise_first_event outcome_port)
next
  case False
  assume "promise (performPortCheck host p tm start evs) = Resolved r"
  with False show ?thesis by (simp add: promise_bad_port)
qed

lemma probe_all_ports:
  "probe_all e addr ps acc = Some (Inr rs) \<Longrightarrow> map port rs = map port acc @ ps"
proof (induction ps arbitrary: acc)
  case Nil
  then show ?case by simp
next
  case (Cons p ps)
  from Cons.prems obtain r where
    r: "promise (performPortCheck addr p None (probe_start e p) (probe_events e p)) = Resolved r"
    and rest: "probe_all e addr ps (acc @ [r]) = Some (Inr rs)"
    by (auto split: promise_state.splits)
  from Cons.IH [OF rest] probe_result_port [OF r] show ?case by simp
qed

text \<open>
  The ports \<open>handleScan\<close> probes are allowed ports, which \<open>socket.connect\<close> accepts, so
  every probe of the loop is resolved and the loop comes to its end.
\<close>

lemma probe_all_allowed:
  "set ps \<subseteq> set ALLOWED_PORTS \<Longrightarrow> \<exists>rs. probe_all e addr ps acc = Some (Inr rs)"
proof (induction ps arbitrary: acc)
  case Nil
  then show ?case by simp
next
  case (Cons p ps)
  then have legal: "isLegalPort p"
    by (simp add: allowed_ports_legal)
  have "\<exists>r. promise (performPortCheck addr p None (probe_start e p) (probe_events e p)) = Resolved r"
    by (cases "probe_events e p") (simp_all add: promise_no_event promise_first_event legal)
  then obtain r where
    "promise (performPortCheck addr p None (probe_start e p) (probe_events e p)) = Resolved r"
    by blast
  moreover from Cons have "\<exists>rs. probe_all e addr ps (acc @ [r]) = Some (Inr rs)"
    by simp
  ultimately show ?case by simp
qed

lemma on_error_code: "code (on_error err) \<noteq> 200"
  by (simp add: on_error_def)

lemma scan_admitted_200:
  assumes "scan_admitted N req e = Inr (Some resp)"
  shows "\<exists>tgt ps sr. payload req = Payload tgt (Some ps)
           \<and> validatePorts N (Some ps) = Inr (dedup_first (map N ps))
           \<and> body resp = ScanBody sr
           \<and> map port (results sr) = dedup_first (map N ps)"
proof -
  from assms obtain tgt inp vp and rt :: ResolvedTarget and rs where
    p: "payload req = Payload tgt inp" and v: "validatePorts N inp = Inr vp"
    and rs: "probe_all e (address rt) vp [] = Some (Inr rs)"
    and resp: "resp = \<lparr>code = 200, body = ScanBody \<lparr>target = hostname rt, ip = address rt,
                                                     results = rs, timestamp = iso_time e\<rparr>\<rparr>"
    by (auto simp add: scan_admitted_def split: payload.splits sum.splits option.splits)
  from v obtain ps where inp: "inp = Some ps"
    by (cases inp) (simp_all add: validatePorts_def)
  from v inp have vp: "vp = dedup_first (map N ps)"
    by (auto simp add: validatePorts_Some simp del: set_map split: if_splits)
  from probe_all_ports [OF rs] have "map port rs = vp" by simp
  with p v inp vp resp show ?thesis by simp
qed

lemma sample_admitted:
  "enforceRateLimit no_records (now sample_env) (clientId_of sample_request) =
     (True, no_records(''198.51.100.9'' \<mapsto> 1700000000000))"
  by (simp add: sample_env_def sample_request_def clientId_of_def enforceRateLimit_def
      last_admitted_def no_records_def RATE_LIMIT_WINDOW_MS_def)

lemma sample_scan: "scan_admitted (\<lambda>n. n) sample_request sample_env = Inr (Some sample_response)"
  by code_simp

lemma sample_handleScan:
  "handleScan (\<lambda>n. n) no_records sample_request sample_env =
     (Some sample_response, no_records(''198.51.100.9'' \<mapsto> 1700000000000))"
  by (simp add: handleScan_def sample_admitted sample_scan)

text \<open>
  Claim C8. When \<open>handleScan\<close> answers 200, the request had an array of ports that
  \<open>validatePorts\<close> accepted, and the ports of the results are the validated ports, one
  result for each, in the order of their first occurrence in the request.
\<close>

theorem handleScan_results_in_request_order:
  "handleScan N m req e = (Some resp, m') \<Longrightarrow> code resp = 200 \<Longrightarrow>
   \<exists>tgt ps sr. payload req = Payload tgt (Some ps)
     \<and> validatePorts N (Some ps) = Inr (dedup_first (map N ps))
     \<and> body resp = ScanBody sr
     \<and> map port (results sr) = dedup_first (map N ps)
     \<and> length (results sr) = length (dedup_first (map N ps))"
proof -
  assume h: "handleScan N m req e = (Some resp, m')" and c: "code resp = 200"
  from h c have "scan_admitted N req e = Inr (Some resp)"
    by (auto simp add: handleScan_def Let_def on_error_code split: prod.splits if_splits sum.splits)
  from scan_admitted_200 [OF this] show ?thesis
    by (metis length_map)
qed

theorem handleScan_results_in_request_order_witness:
  "handleScan (\<lambda>n. n) no_records sample_request sample_env =
     (Some sample_response, no_records(''198.51.100.9'' \<mapsto> 1700000000000))
   \<and> code sample_response = 200
   \<and> map port sample_results = [Num 443, Num 80]"
proof -
  have c: "code sample_response = 200"
    by (simp add: sample_response_def)
  from handleScan_results_in_request_order [OF sample_handleScan c]
  have "map port sample_results = dedup_first [Num 443, Num 80, Num 443]"
    by (auto simp add: sample_request_def sample_response_def)
  with sample_handleScan c show ?thesis by simp
qed

lemma scan_admitted_validation_error:
  assumes "payload req = Payload tgt ps"
    and "validatePorts N ps = Inl err \<or> (validatePorts N ps = Inr vp \<and> resolveTarget (lookup e) tgt = Inl err)"
  shows "scan_admitted N req e = Inl err"
  using assms by (auto simp add: scan_admitted_def)

lemma handleScan_rejected:
  "fst (enforceRateLimit m (now e) (clientId_of req)) = False \<Longrightarrow>
   handleScan N m req e =
     (Some too_many_requests, m)"
  by (auto simp add: handleScan_def Let_def enforceRateLimit_def too_many_requests_def
      split: prod.splits if_splits)

lemma handleScan_admitted_error:
  "fst (enforceRateLimit m (now e) (clientId_of req)) \<Longrightarrow> scan_admitted N req e = Inl err \<Longrightarrow>
   handleScan N m req e = (Some (on_error err), m(clientId_of req \<mapsto> now e))"
  by (auto simp add: handleScan_def Let_def enforceRateLimit_def split: prod.splits if_splits)

text \<open>
  Claim C10. A request that is admitted and then fails the validation of its ports or
  of its target is answered with the error, and the map holds the time of that request
  for its client. A request of the same client less than 10000 ms later is answered 429,
  and leaves the map as it is.
\<close>

theorem failed_validation_consumes_window:
  assumes admitted: "fst (enforceRateLimit m (now e) (clientId_of req))"
    and payload: "payload req = Payload tgt ps"
    and invalid: "validatePorts N ps = Inl err
                  \<or> (validatePorts N ps = Inr vp \<and> resolveTarget (lookup e) tgt = Inl err)"
    and same_client: "clientId_of req' = clientId_of req"
    and within: "now e' - now e < 10000"
  shows "handleScan N m req e = (Some (on_error err), m(clientId_of req \<mapsto> now e))
    \<and> handleScan N' (m(clientId_of req \<mapsto> now e)) req' e' =
        (Some too_many_requests,
         m(clientId_of req \<mapsto> now e))"
proof -
  from payload invalid have "scan_admitted N req e = Inl err"
    by (rule scan_admitted_validation_error)
  with admitted have first: "handleScan N m req e = (Some (on_error err), m(clientId_of req \<mapsto> now e))"
    by (rule handleScan_admitted_error)
  from same_client within
  have "fst (enforceRateLimit (m(clientId_of req \<mapsto> now e)) (now e') (clientId_of req')) = False"
    by (simp add: enforceRateLimit_def last_admitted_def RATE_LIMIT_WINDOW_MS_def Let_def)
  then have "handleScan N' (m(clientId_of req \<mapsto> now e)) req' e' =
        (Some too_many_requests,
         m(clientId_of req \<mapsto> now e))"
    by (rule handleScan_rejected)
  with first show ?thesis by simp
qed

theorem failed_validation_consumes_window_witness:
  "handleScan (\<lambda>n. n) no_records bad_request earlier_env =
     (Some \<lparr>code = 400, body = ErrorBody ''Ports must be in the allowed list''\<rparr>,
      no_records(''198.51.100.9'' \<mapsto> 1699999997000))
   \<and> handleScan (\<lambda>n. n) (no_records(''198.51.100.9'' \<mapsto> 1699999997000)) sample_request sample_env =
       (Some too_many_requests, no_records(''198.51.100.9'' \<mapsto> 1699999997000))"
proof -
  have admitted: "fst (enforceRateLimit no_records (now earlier_env) (clientId_of bad_request))"
    by (simp add: earlier_env_def bad_request_def clientId_of_def enforceRateLimit_def
        last_admitted_def no_records_def RATE_LIMIT_WINDOW_MS_def)
  have payload: "payload bad_request = Payload (Some ''example.com'') (Some [Num 9999])"
    by (simp add: bad_request_def)
  have invalid: "validatePorts (\<lambda>n. n) (Some [Num 9999]) = Inl (Error ''Ports must be in the allowed list'')
      \<or> (validatePorts (\<lambda>n. n) (Some [Num 9999]) = Inr []
          \<and> resolveTarget (lookup earlier_env) (Some ''example.com'')
              = Inl (Error ''Ports must be in the allowed list''))"
    by (simp add: validatePorts_def dedupePorts_def Set_add_def MAX_PORTS_def ALLOWED_PORTS_def)
  have same_client: "clientId_of sample_request = clientId_of bad_request"
    by (simp add: sample_request_def bad_request_def clientId_of_def)
  have within: "now sample_env - now earlier_env < 10000"
    by (simp add: sample_env_def earlier_env_def)
  have err: "on_error (Error ''Ports must be in the allowed list'')
      = \<lparr>code = 400, body = ErrorBody ''Ports must be in the allowed list''\<rparr>"
    by code_simp
  have client: "clientId_of bad_request = ''198.51.100.9''" "now earlier_env = 1699999997000"
    by (simp_all add: bad_request_def clientId_of_def earlier_env_def)
  from failed_validation_consumes_window [OF admitted payload invalid same_client within,
      of "\<lambda>n. n"]
  show ?thesis by (simp add: err client)
qed

end
